theory Spec2Isabelle
  imports Main
begin

section \<open>Messages\<close>

text \<open>
  The notebooks build their transcripts from the message classes of the chat library,
  \<^verbatim>\<open>HumanMessage(content=...)\<close>, \<^verbatim>\<open>AIMessage(content=...)\<close> and the system message of
  the prompt template. A message is its class and its content.
\<close>

datatype message =
    HumanMessage (content: string)
  | AIMessage (content: string)
  | SystemMessage (content: string)

section \<open>Python slicing\<close>

text \<open>
  \<^verbatim>\<open>xs[i:]\<close> on a Python list: a negative start counts from the end (\<open>i + len(xs)\<close>) and
  is clamped at 0, a start beyond the end is clamped at \<open>len(xs)\<close>; the slice never raises.
\<close>

definition slice_from :: "'a list \<Rightarrow> int \<Rightarrow> 'a list" where
  "slice_from xs i =
     (let n = int (length xs);
          start = (if i < 0 then max 0 (i + n) else min i n)
      in drop (nat start) xs)"

section \<open>Truncating the history\<close>

text \<open>
  \<^verbatim>\<open>
  def filter_messages(messages, k=10):
      return messages[-k:]
  \<close>
  The optional argument is an \<open>int option\<close>: \<open>None\<close> is the call without \<open>k\<close>, which takes
  the default 10.
\<close>

definition filter_messages :: "'a list \<Rightarrow> int option \<Rightarrow> 'a list" where
  "filter_messages messages k =
     slice_from messages (- (case k of None \<Rightarrow> 10 | Some k' \<Rightarrow> k'))"

text \<open>
  The first step of the chain,
  \<^verbatim>\<open>RunnablePassthrough.assign(messages=lambda x: filter_messages(x["messages"]))\<close>:
  the input dictionary (keys \<open>messages\<close> and \<open>language\<close>) with its \<open>messages\<close> replaced by
  the filtered list. The call gives no \<open>k\<close>.
\<close>

record chain_input =
  messages :: "message list"
  language :: string

definition chain_assign :: "chain_input \<Rightarrow> chain_input" where
  "chain_assign x = x\<lparr>messages := filter_messages (messages x) None\<rparr>"

text \<open>The spec's wording of the window: the last \<open>n\<close> items, in their order.\<close>

definition last_n :: "nat \<Rightarrow> 'a list \<Rightarrow> 'a list" where
  "last_n n xs = drop (length xs - n) xs"

section \<open>The session store\<close>

text \<open>
  \<^verbatim>\<open>
  store = {}

  def get_session_history(session_id: str) -> BaseChatMessageHistory:
      if session_id not in store:
          store[session_id] = ChatMessageHistory()
      return store[session_id]
  \<close>
  The dictionary holds references to history objects, and a caller mutates the object it
  is handed. The state is therefore the dictionary, from session id to a reference, and the
  objects: the reference \<open>a\<close> is the position of its object in \<open>histories\<close>, and the object
  is its list of messages. A new object takes the next free position.
\<close>

record state =
  store :: "string \<rightharpoonup> nat"
  histories :: "message list list"

definition init :: state where
  "init = \<lparr>store = Map.empty, histories = []\<rparr>"

definition get_session_history :: "string \<Rightarrow> state \<Rightarrow> nat \<times> state" where
  "get_session_history session_id s =
     (case store s session_id of
        None \<Rightarrow>
          (let a = length (histories s)
           in (a, s\<lparr>store := (store s)(session_id \<mapsto> a), histories := histories s @ [[]]\<rparr>))
      | Some a \<Rightarrow> (a, s))"

text \<open>
  Modelled from the spec: the class \<^verbatim>\<open>ChatMessageHistory\<close> is imported from the chat library
  and is not part of the sources. The spec's Session is an ordered sequence of turns that is
  created empty, to whose end a turn is added, and which a reset clears. These are the
  object's \<^verbatim>\<open>messages\<close> attribute and its \<^verbatim>\<open>add_message\<close> and \<^verbatim>\<open>clear\<close>
  methods, on the object behind a reference. A reference that the dictionary holds always
  points at an object (the invariant \<open>wf\<close> below, which every reachable state has), so
  the reads by position are in range.
\<close>

definition messages_of :: "nat \<Rightarrow> state \<Rightarrow> message list" where
  "messages_of a s = histories s ! a"

definition add_message :: "nat \<Rightarrow> message \<Rightarrow> state \<Rightarrow> state" where
  "add_message a m s = s\<lparr>histories := (histories s)[a := histories s ! a @ [m]]\<rparr>"

definition clear :: "nat \<Rightarrow> state \<Rightarrow> state" where
  "clear a s = s\<lparr>histories := (histories s)[a := []]\<rparr>"

text \<open>
  The operations of the store. The notebook hands \<open>get_session_history\<close> to the library's
  \<^verbatim>\<open>RunnableWithMessageHistory\<close>, which asks it for the session's object on every call
  and then reads or extends that object; each operation is that composition. Neither function of the
  source has a \<^verbatim>\<open>raise\<close>, and a slice of a list never raises, so the outcome of \<open>window\<close>
  is always a returned list; the outcome type makes that visible.
\<close>

datatype error = InvalidArgument | DimensionMismatch

definition append_turn :: "string \<Rightarrow> message \<Rightarrow> state \<Rightarrow> state" where
  "append_turn key turn s = (let (a, s') = get_session_history key s in add_message a turn s')"

definition window :: "string \<Rightarrow> int option \<Rightarrow> state \<Rightarrow> (error + message list) \<times> state" where
  "window key k s =
     (let (a, s') = get_session_history key s
      in (Inr (filter_messages (messages_of a s') k), s'))"

definition reset :: "string \<Rightarrow> state \<Rightarrow> state" where
  "reset key s = (let (a, s') = get_session_history key s in clear a s')"

text \<open>A history of calls against the store, run from the empty dictionary.\<close>

datatype call = Append string message | Window string "int option" | Reset string

fun key_of :: "call \<Rightarrow> string" where
  "key_of (Append key _) = key"
| "key_of (Window key _) = key"
| "key_of (Reset key) = key"

fun exec :: "call \<Rightarrow> state \<Rightarrow> state" where
  "exec (Append key turn) s = append_turn key turn s"
| "exec (Window key k) s = snd (window key k s)"
| "exec (Reset key) s = reset key s"

fun run_from :: "state \<Rightarrow> call list \<Rightarrow> state" where
  "run_from s [] = s"
| "run_from s (c # cs) = run_from (exec c s) cs"

definition run :: "call list \<Rightarrow> state" where
  "run cs = run_from init cs"

text \<open>What the store holds for a key: the messages of its object, nothing for an unknown key.\<close>

definition transcript :: "state \<Rightarrow> string \<Rightarrow> message list" where
  "transcript s key = (case store s key of None \<Rightarrow> [] | Some a \<Rightarrow> messages_of a s)"

text \<open>
  The transcript a history of calls should leave for a key, read off the calls alone:
  appends to the key extend it, a reset of the key empties it, every other call leaves it.
\<close>

fun replay :: "string \<Rightarrow> message list \<Rightarrow> call list \<Rightarrow> message list" where
  "replay key t [] = t"
| "replay key t (Append key' turn # cs) = replay key (if key' = key then t @ [turn] else t) cs"
| "replay key t (Reset key' # cs) = replay key (if key' = key then [] else t) cs"
| "replay key t (Window key' k # cs) = replay key t cs"

fun appends_to :: "string \<Rightarrow> call \<Rightarrow> bool" where
  "appends_to key (Append key' _) = (key' = key)"
| "appends_to key _ = False"

text \<open>
  Every reference in the dictionary points at an object, and no object is shared by two
  keys.
\<close>

definition wf :: "state \<Rightarrow> bool" where
  "wf s \<longleftrightarrow>
     (\<forall>key a. store s key = Some a \<longrightarrow> a < length (histories s)) \<and>
     (\<forall>k1 k2 a. store s k1 = Some a \<longrightarrow> store s k2 = Some a \<longrightarrow> k1 = k2)"

text \<open>Every object is the session of a key: the dictionary's references are all the positions.\<close>

definition owned :: "state \<Rightarrow> bool" where
  "owned s \<longleftrightarrow> ran (store s) = {..<length (histories s)}"

section \<open>Properties of the slice\<close>

lemma slice_from_nonneg: "0 \<le> i \<Longrightarrow> slice_from xs i = drop (nat i) xs"
  by (simp add: slice_from_def Let_def min_def)

lemma slice_from_neg: "i < 0 \<Longrightarrow> slice_from xs i = drop (length xs - nat (- i)) xs"
proof -
  assume neg: "i < 0"
  have "nat (max 0 (i + int (length xs))) = length xs - nat (- i)"
    using neg by linarith
  then show ?thesis
    using neg by (simp add: slice_from_def Let_def)
qed

lemma filter_messages_zero: "filter_messages ms (Some 0) = ms"
  by (simp add: filter_messages_def slice_from_nonneg)

lemma filter_messages_pos:
  "0 < k \<Longrightarrow> filter_messages ms (Some k) = last_n (nat k) ms"
  by (simp add: filter_messages_def slice_from_neg last_n_def)

lemma filter_messages_neg:
  "k < 0 \<Longrightarrow> filter_messages ms (Some k) = drop (nat (- k)) ms"
  by (simp add: filter_messages_def slice_from_nonneg)

lemma filter_messages_default:
  "filter_messages ms None = last_n 10 ms"
  by (simp add: filter_messages_def slice_from_neg last_n_def)

lemma filter_messages_Nil: "filter_messages [] k = []"
  by (simp add: filter_messages_def slice_from_def Let_def)

lemma length_last_n: "length (last_n n xs) = min n (length xs)"
  by (simp add: last_n_def)

lemma last_n_min: "last_n (min n (length xs)) xs = last_n n xs"
  by (simp add: last_n_def min_def)

section \<open>The invariant of the store, and the transcript of a history of calls\<close>

lemma wf_init: "wf init"
  by (simp add: wf_def init_def)

lemma get_session_history_known:
  "store s key = Some a \<Longrightarrow> get_session_history key s = (a, s)"
  by (simp add: get_session_history_def)

lemma get_session_history_unknown:
  "store s key = None \<Longrightarrow>
   get_session_history key s =
     (length (histories s),
      s\<lparr>store := (store s)(key \<mapsto> length (histories s)), histories := histories s @ [[]]\<rparr>)"
  by (simp add: get_session_history_def Let_def)

lemma get_session_history_store:
  "get_session_history key s = (a, s') \<Longrightarrow> store s' key = Some a"
  by (auto simp: get_session_history_def Let_def split: option.splits)

lemma get_session_history_other:
  "get_session_history key s = (a, s') \<Longrightarrow> key' \<noteq> key \<Longrightarrow> store s' key' = store s key'"
  by (auto simp: get_session_history_def Let_def split: option.splits)

lemma get_session_history_wf:
  "get_session_history key s = (a, s') \<Longrightarrow> wf s \<Longrightarrow> wf s'"
proof (cases "store s key")
  case None
  assume g: "get_session_history key s = (a, s')" and w: "wf s"
  from g None have s': "s' = s\<lparr>store := (store s)(key \<mapsto> length (histories s)),
      histories := histories s @ [[]]\<rparr>"
    by (auto simp: get_session_history_unknown)
  from w have bound: "\<And>k b. store s k = Some b \<Longrightarrow> b < length (histories s)"
    and inj: "\<And>k1 k2 b. store s k1 = Some b \<Longrightarrow> store s k2 = Some b \<Longrightarrow> k1 = k2"
    by (auto simp: wf_def)
  have fresh: "\<And>k. store s k \<noteq> Some (length (histories s))"
    using bound by fastforce
  show ?thesis
    unfolding wf_def s' using bound inj fresh
    by (auto simp: less_Suc_eq split: if_splits)
next
  case (Some b)
  assume "get_session_history key s = (a, s')" and "wf s"
  with Some show ?thesis by (simp add: get_session_history_known)
qed

lemma get_session_history_transcript:
  "get_session_history key s = (a, s') \<Longrightarrow> wf s \<Longrightarrow> transcript s' key' = transcript s key'"
  by (auto simp: get_session_history_def Let_def wf_def transcript_def messages_of_def nth_append
      split: option.splits if_splits)

lemma add_message_wf: "wf s \<Longrightarrow> wf (add_message a m s)"
  by (simp add: wf_def add_message_def)

lemma clear_wf: "wf s \<Longrightarrow> wf (clear a s)"
  by (simp add: wf_def clear_def)

lemma add_message_transcript:
  "wf s \<Longrightarrow> store s key = Some a \<Longrightarrow>
   transcript (add_message a m s) key' =
     (if key' = key then transcript s key @ [m] else transcript s key')"
  by (auto simp: wf_def add_message_def transcript_def messages_of_def nth_list_update
      split: option.splits)

lemma clear_transcript:
  "wf s \<Longrightarrow> store s key = Some a \<Longrightarrow>
   transcript (clear a s) key' = (if key' = key then [] else transcript s key')"
  by (auto simp: wf_def clear_def transcript_def messages_of_def nth_list_update
      split: option.splits)

lemma exec_wf: "wf s \<Longrightarrow> wf (exec c s)"
  by (cases c)
     (auto simp: append_turn_def window_def reset_def
        intro: add_message_wf clear_wf get_session_history_wf split: prod.splits)

lemma exec_transcript:
  "wf s \<Longrightarrow> transcript (exec c s) key = replay key (transcript s key) [c]"
proof (cases c)
  case (Append key' turn)
  obtain a s' where g: "get_session_history key' s = (a, s')" by (cases "get_session_history key' s")
  assume "wf s"
  with g have "wf s'" "store s' key' = Some a" "\<And>k. transcript s' k = transcript s k"
    by (auto intro: get_session_history_wf get_session_history_store get_session_history_transcript)
  then show ?thesis using Append g
    by (simp add: append_turn_def add_message_transcript)
next
  case (Window key' k)
  obtain a s' where g: "get_session_history key' s = (a, s')" by (cases "get_session_history key' s")
  assume "wf s"
  with g show ?thesis using Window
    by (simp add: window_def get_session_history_transcript)
next
  case (Reset key')
  obtain a s' where g: "get_session_history key' s = (a, s')" by (cases "get_session_history key' s")
  assume "wf s"
  with g have "wf s'" "store s' key' = Some a" "\<And>k. transcript s' k = transcript s k"
    by (auto intro: get_session_history_wf get_session_history_store get_session_history_transcript)
  then show ?thesis using Reset g
    by (simp add: reset_def clear_transcript)
qed

lemma replay_step: "replay key t (c # cs) = replay key (replay key t [c]) cs"
  by (cases c) simp_all

lemma run_from_wf: "wf s \<Longrightarrow> wf (run_from s cs)"
  by (induction cs arbitrary: s) (simp_all add: exec_wf)

lemma run_from_transcript:
  "wf s \<Longrightarrow> transcript (run_from s cs) key = replay key (transcript s key) cs"
proof (induction cs arbitrary: s)
  case Nil
  then show ?case by simp
next
  case (Cons c cs)
  then have "transcript (run_from (exec c s) cs) key = replay key (transcript (exec c s) key) cs"
    by (simp add: exec_wf)
  also have "\<dots> = replay key (replay key (transcript s key) [c]) cs"
    using Cons.prems by (simp add: exec_transcript)
  finally show ?case by (simp add: replay_step [of key _ c cs])
qed

lemma run_wf: "wf (run cs)"
  by (simp add: run_def run_from_wf wf_init)

lemma run_transcript: "transcript (run cs) key = replay key [] cs"
  by (simp add: run_def run_from_transcript wf_init) (simp add: transcript_def init_def)

section \<open>One session object per key\<close>

lemma owned_init: "owned init"
  by (simp add: owned_def init_def)

lemma get_session_history_owned:
  "get_session_history key s = (a, s') \<Longrightarrow> owned s \<Longrightarrow> owned s'"
proof (cases "store s key")
  case None
  assume g: "get_session_history key s = (a, s')" and o: "owned s"
  from g None have s': "s' = s\<lparr>store := (store s)(key \<mapsto> length (histories s)),
      histories := histories s @ [[]]\<rparr>"
    by (auto simp: get_session_history_unknown)
  have "ran ((store s)(key \<mapsto> length (histories s))) = insert (length (histories s)) (ran (store s))"
    using None by (rule ran_map_upd)
  also have "\<dots> = {..<Suc (length (histories s))}"
    using o unfolding owned_def by (simp only: lessThan_Suc)
  finally show ?thesis
    unfolding owned_def s' by simp
next
  case (Some b)
  assume "get_session_history key s = (a, s')" and "owned s"
  with Some show ?thesis by (simp add: get_session_history_known)
qed

lemma add_message_owned: "owned s \<Longrightarrow> owned (add_message a m s)"
  by (simp add: owned_def add_message_def)

lemma clear_owned: "owned s \<Longrightarrow> owned (clear a s)"
  by (simp add: owned_def clear_def)

lemma exec_owned: "owned s \<Longrightarrow> owned (exec c s)"
  by (cases c)
     (auto simp: append_turn_def window_def reset_def
        intro: add_message_owned clear_owned get_session_history_owned split: prod.splits)

lemma run_from_owned: "owned s \<Longrightarrow> owned (run_from s cs)"
  by (induction cs arbitrary: s) (simp_all add: exec_owned)

lemma run_owned: "owned (run cs)"
  by (simp add: run_def run_from_owned owned_init)

lemma get_session_history_keeps:
  "get_session_history key s = (a, s') \<Longrightarrow> store s key' = Some b \<Longrightarrow> store s' key' = Some b"
proof (cases "store s key")
  case None
  assume g: "get_session_history key s = (a, s')" and b: "store s key' = Some b"
  from g None have s': "s' = s\<lparr>store := (store s)(key \<mapsto> length (histories s)),
      histories := histories s @ [[]]\<rparr>"
    by (auto simp: get_session_history_unknown)
  from None b have "key' \<noteq> key" by auto
  with b show ?thesis unfolding s' by simp
next
  case (Some b')
  assume "get_session_history key s = (a, s')" and "store s key' = Some b"
  with Some show ?thesis by (simp add: get_session_history_known)
qed

lemma exec_store:
  "get_session_history (key_of c) s = (a, s') \<Longrightarrow> store (exec c s) = store s'"
  by (cases c) (simp_all add: append_turn_def window_def reset_def add_message_def clear_def)

lemma exec_keeps: "store s key = Some a \<Longrightarrow> store (exec c s) key = Some a"
proof -
  assume b: "store s key = Some a"
  obtain a' s' where g: "get_session_history (key_of c) s = (a', s')"
    by (cases "get_session_history (key_of c) s")
  from g b have "store s' key = Some a" by (rule get_session_history_keeps)
  with g show ?thesis by (simp add: exec_store)
qed

section \<open>The window over a history of calls\<close>

lemma window_fst:
  "wf s \<Longrightarrow> fst (window key k s) = Inr (filter_messages (transcript s key) k)"
proof -
  assume w: "wf s"
  obtain a s' where g: "get_session_history key s = (a, s')"
    by (cases "get_session_history key s")
  from g have "store s' key = Some a" by (rule get_session_history_store)
  then have "messages_of a s' = transcript s' key" by (simp add: transcript_def)
  also have "\<dots> = transcript s key" using g w by (rule get_session_history_transcript)
  finally show ?thesis using g by (simp add: window_def)
qed

lemma window_snd_transcript:
  "wf s \<Longrightarrow> transcript (snd (window key k s)) key' = transcript s key'"
  using exec_transcript [of s "Window key k" key'] by simp

lemma window_empty:
  "transcript s key = [] \<Longrightarrow> window key k s = (Inr [], reset key s)"
proof (cases "store s key")
  case None
  then show ?thesis
    by (simp add: window_def reset_def get_session_history_unknown messages_of_def clear_def
        filter_messages_Nil)
next
  case (Some a)
  assume "transcript s key = []"
  with Some have e: "histories s ! a = []" by (simp add: transcript_def messages_of_def)
  then have "(histories s)[a := []] = histories s"
    using list_update_id [of "histories s" a] by simp
  with Some e show ?thesis
    by (simp add: window_def reset_def get_session_history_known messages_of_def clear_def
        filter_messages_Nil)
qed

lemma replay_no_appends: "\<not> list_ex (appends_to key) cs \<Longrightarrow> replay key [] cs = []"
proof (induction cs)
  case Nil
  then show ?case by simp
next
  case (Cons c cs)
  then show ?case by (cases c) simp_all
qed

lemma replay_append: "replay key t (cs @ cs') = replay key (replay key t cs) cs'"
  by (induction key t cs rule: replay.induct) simp_all

lemma replay_appends:
  "replay key t (map (\<lambda>(key', turn). Append key' turn) kts) =
     t @ map snd (filter (\<lambda>(key', turn). key' = key) kts)"
  by (induction kts arbitrary: t) (auto split: prod.splits)


lemma window_zero_run:
  "fst (window key (Some 0) (run cs)) = Inr (replay key [] cs)"
  by (simp add: window_fst run_wf run_transcript filter_messages_zero)

lemma window_pos_run:
  "0 < k \<Longrightarrow>
   fst (window key (Some k) (run cs)) =
     Inr (last_n (min (nat k) (length (replay key [] cs))) (replay key [] cs))"
  by (simp add: window_fst run_wf run_transcript filter_messages_pos last_n_min)

lemma window_after_appends:
  "0 < k \<Longrightarrow>
   fst (window key (Some k) (run (map (\<lambda>(key', turn). Append key' turn) kts))) =
     Inr (last_n (min (nat k) (length (map snd (filter (\<lambda>(key', turn). key' = key) kts))))
            (map snd (filter (\<lambda>(key', turn). key' = key) kts)))"
  using replay_appends [of key "[]" kts] by (simp add: window_pos_run)

section \<open>The claims\<close>

text \<open>
  Claim C1: for every sequence of appends and every \<open>k \<ge> 0\<close>, the window is exactly the last
  \<open>min(k, length)\<close> turns. The code breaks it at \<open>k = 0\<close>: after the two appends of the
  spec's own scenario to session \<open>s1\<close>, the window of size 0 is the whole transcript of two
  turns, where the last \<open>min(0, 2) = 0\<close> turns are the empty list. (For \<open>k > 0\<close> the window
  is the last \<open>min(k, length)\<close> turns, \<open>window_after_appends\<close>, and the stored transcript
  is left as it was, \<open>window_snd_transcript\<close>.)
\<close>

theorem window_zero_returns_whole_transcript:
  "fst (window ''s1'' (Some 0)
         (run [Append ''s1'' (HumanMessage ''hi''), Append ''s1'' (AIMessage ''hello'')])) =
     Inr [HumanMessage ''hi'', AIMessage ''hello''] \<and>
   last_n (min 0 (length [HumanMessage ''hi'', AIMessage ''hello'']))
     [HumanMessage ''hi'', AIMessage ''hello''] = []"
  by (simp add: window_zero_run last_n_def)

text \<open>
  Claim C2: \<open>filter_messages(messages, 0)\<close> returns an empty sequence. The code returns the
  whole list instead, since \<open>messages[-0:]\<close> is \<open>messages[0:]\<close>: for one message the result
  is that message, not the empty list.
\<close>

theorem filter_messages_k0_whole_list:
  "filter_messages ms (Some 0) = ms \<and>
   filter_messages [HumanMessage ''hi''] (Some 0) = [HumanMessage ''hi'']"
  by (simp add: filter_messages_zero)

text \<open>
  Claim C7: for a key that no call has appended to, the window is the empty sequence, for
  every \<open>k\<close> (negative or omitted as well) and not an error, and the state it leaves is the
  state a reset of that key leaves.
\<close>

theorem window_never_appended:
  "\<not> list_ex (appends_to key) cs \<Longrightarrow> window key k (run cs) = (Inr [], reset key (run cs))"
  by (simp add: window_empty run_transcript replay_no_appends)

theorem window_never_appended_witness:
  "\<not> list_ex (appends_to ''s1'') [Append ''s2'' (HumanMessage ''hi''), Window ''s1'' (Some 3)] \<and>
   window ''s1'' (Some 5) (run [Append ''s2'' (HumanMessage ''hi''), Window ''s1'' (Some 3)]) =
     (Inr [], reset ''s1'' (run [Append ''s2'' (HumanMessage ''hi''), Window ''s1'' (Some 3)]))"
  using window_never_appended
    [of "''s1''" "[Append ''s2'' (HumanMessage ''hi''), Window ''s1'' (Some 3)]" "Some 5"]
  by simp

text \<open>
  Claim C8: a negative \<open>k\<close> is rejected with \<open>InvalidArgument\<close>. The code has no check of
  \<open>k\<close>: with two turns stored, the window for \<open>k = -1\<close> is the slice
  \<open>messages[1:]\<close>, a returned list and no error.
\<close>

theorem window_negative_k_counterexample:
  "fst (window ''s1'' (Some (- 1))
         (run [Append ''s1'' (HumanMessage ''hi''), Append ''s1'' (AIMessage ''hello'')])) =
     Inr [AIMessage ''hello''] \<and>
   fst (window ''s1'' (Some (- 1))
         (run [Append ''s1'' (HumanMessage ''hi''), Append ''s1'' (AIMessage ''hello'')])) \<noteq>
     Inl InvalidArgument"
  by (simp add: window_fst run_wf run_transcript filter_messages_neg)

text \<open>
  Claim C8, as the code has it: for a negative \<open>k\<close> the window is returned, not rejected, and
  is the stored transcript without its first \<open>|k|\<close> turns (\<open>messages[|k|:]\<close>).
\<close>

theorem window_negative_k:
  "k < 0 \<Longrightarrow>
   fst (window key (Some k) (run cs)) = Inr (drop (nat (- k)) (transcript (run cs) key))"
  by (simp add: window_fst run_wf filter_messages_neg)

theorem window_negative_k_witness:
  "(- 1 :: int) < 0 \<and>
   fst (window ''s1'' (Some (- 1))
         (run [Append ''s1'' (HumanMessage ''hi''), Append ''s1'' (AIMessage ''hello'')])) =
     Inr [AIMessage ''hello'']"
  using window_negative_k
    [of "- 1" "''s1''" "[Append ''s1'' (HumanMessage ''hi''), Append ''s1'' (AIMessage ''hello'')]"]
  by (simp add: run_transcript)

text \<open>
  Claim C9: a call (append, window or reset) on a key other than \<open>s2\<close> leaves the transcript
  stored for \<open>s2\<close> and the dictionary's entry for \<open>s2\<close> as they were, in every state the
  store can reach; afterwards the key of the call has its session object, and that object is
  not the one of \<open>s2\<close>. There is exactly one session per key: a key that has a session
  keeps that same object through every call (also a call on the key itself, which finds the
  object of the first access and does not make another), the call acts on the transcript of
  that object, and the objects that exist are exactly the sessions the dictionary holds.
\<close>

theorem session_isolation:
  "key_of c \<noteq> s2 \<Longrightarrow>
     transcript (exec c (run cs)) s2 = transcript (run cs) s2 \<and>
     store (exec c (run cs)) s2 = store (run cs) s2 \<and>
     store (exec c (run cs)) (key_of c) \<noteq> None \<and>
     store (exec c (run cs)) (key_of c) \<noteq> store (exec c (run cs)) s2 \<and>
     (store (run cs) key = Some a \<longrightarrow> store (exec c (run cs)) key = Some a) \<and>
     transcript (exec c (run cs)) (key_of c) =
       replay (key_of c) (transcript (run cs) (key_of c)) [c] \<and>
     ran (store (exec c (run cs))) = {..<length (histories (exec c (run cs)))}"
proof -
  assume ne: "key_of c \<noteq> s2"
  obtain a' s' where g: "get_session_history (key_of c) (run cs) = (a', s')"
    by (cases "get_session_history (key_of c) (run cs)")
  have st: "store (exec c (run cs)) = store s'"
    using g by (rule exec_store)
  have bound: "store s' (key_of c) = Some a'"
    using g by (rule get_session_history_store)
  have other: "store s' s2 = store (run cs) s2"
    using g ne by (simp add: get_session_history_other)
  have "wf (exec c (run cs))"
    by (simp add: exec_wf run_wf)
  then have apart: "store (exec c (run cs)) s2 \<noteq> Some a'"
    using ne bound st by (auto simp: wf_def)
  have frame: "transcript (exec c (run cs)) s2 = transcript (run cs) s2"
    using ne exec_transcript [of "run cs" c s2] by (cases c) (simp_all add: run_wf)
  have keeps: "store (run cs) key = Some a \<longrightarrow> store (exec c (run cs)) key = Some a"
    by (simp add: exec_keeps)
  have own: "transcript (exec c (run cs)) (key_of c) =
      replay (key_of c) (transcript (run cs) (key_of c)) [c]"
    by (simp add: exec_transcript run_wf)
  have "owned (exec c (run cs))"
    by (simp add: exec_owned run_owned)
  then have full: "ran (store (exec c (run cs))) = {..<length (histories (exec c (run cs)))}"
    by (simp add: owned_def)
  from frame st bound other apart have
    "transcript (exec c (run cs)) s2 = transcript (run cs) s2 \<and>
     store (exec c (run cs)) s2 = store (run cs) s2 \<and>
     store (exec c (run cs)) (key_of c) \<noteq> None \<and>
     store (exec c (run cs)) (key_of c) \<noteq> store (exec c (run cs)) s2"
    by simp
  with keeps own full show ?thesis by blast
qed

theorem session_isolation_witness:
  "key_of (Append ''s1'' (AIMessage ''hello'')) \<noteq> ''s2'' \<and>
   store (run [Append ''s2'' (HumanMessage ''hi''), Append ''s1'' (HumanMessage ''hey'')]) ''s1'' =
     Some 1 \<and>
   transcript (exec (Append ''s1'' (AIMessage ''hello''))
       (run [Append ''s2'' (HumanMessage ''hi''), Append ''s1'' (HumanMessage ''hey'')])) ''s2'' =
     [HumanMessage ''hi''] \<and>
   store (exec (Append ''s1'' (AIMessage ''hello''))
       (run [Append ''s2'' (HumanMessage ''hi''), Append ''s1'' (HumanMessage ''hey'')])) ''s1'' =
     Some 1 \<and>
   transcript (exec (Append ''s1'' (AIMessage ''hello''))
       (run [Append ''s2'' (HumanMessage ''hi''), Append ''s1'' (HumanMessage ''hey'')])) ''s1'' =
     [HumanMessage ''hey'', AIMessage ''hello'']"
proof -
  have st: "store (run [Append ''s2'' (HumanMessage ''hi''), Append ''s1'' (HumanMessage ''hey'')])
      ''s1'' = Some 1"
    by (simp add: run_def init_def append_turn_def get_session_history_def add_message_def Let_def)
  show ?thesis
    using st session_isolation
      [of "Append ''s1'' (AIMessage ''hello'')" "''s2''"
          "[Append ''s2'' (HumanMessage ''hi''), Append ''s1'' (HumanMessage ''hey'')]"
          "''s1''" 1]
    by (simp add: run_transcript)
qed

text \<open>
  Claim C10: the chain calls \<open>filter_messages\<close> without \<open>k\<close>, so with the default 10: of a
  list of at least 10 messages the model is handed exactly the last 10, the older ones are
  dropped, and the rest of the input is passed through.
\<close>

theorem chain_default_window:
  "10 \<le> length (messages x) \<Longrightarrow>
     messages (chain_assign x) = drop (length (messages x) - 10) (messages x) \<and>
     length (messages (chain_assign x)) = 10 \<and>
     messages x = take (length (messages x) - 10) (messages x) @ messages (chain_assign x) \<and>
     language (chain_assign x) = language x"
  by (simp add: chain_assign_def filter_messages_default last_n_def)

theorem chain_default_window_witness:
  "10 \<le> length (messages \<lparr>messages =
       [HumanMessage ''m0'', AIMessage ''m1'', HumanMessage ''m2'', AIMessage ''m3'',
        HumanMessage ''m4'', AIMessage ''m5'', HumanMessage ''m6'', AIMessage ''m7'',
        HumanMessage ''m8'', AIMessage ''m9'', HumanMessage ''m10''], language = ''English''\<rparr>) \<and>
   messages (chain_assign \<lparr>messages =
       [HumanMessage ''m0'', AIMessage ''m1'', HumanMessage ''m2'', AIMessage ''m3'',
        HumanMessage ''m4'', AIMessage ''m5'', HumanMessage ''m6'', AIMessage ''m7'',
        HumanMessage ''m8'', AIMessage ''m9'', HumanMessage ''m10''], language = ''English''\<rparr>) =
       [AIMessage ''m1'', HumanMessage ''m2'', AIMessage ''m3'',
        HumanMessage ''m4'', AIMessage ''m5'', HumanMessage ''m6'', AIMessage ''m7'',
        HumanMessage ''m8'', AIMessage ''m9'', HumanMessage ''m10'']"
  using chain_default_window [of "\<lparr>messages =
       [HumanMessage ''m0'', AIMessage ''m1'', HumanMessage ''m2'', AIMessage ''m3'',
        HumanMessage ''m4'', AIMessage ''m5'', HumanMessage ''m6'', AIMessage ''m7'',
        HumanMessage ''m8'', AIMessage ''m9'', HumanMessage ''m10''], language = ''English''\<rparr>"]
  by simp

end
